theory Spec2Isabelle
  imports Main
begin

section \<open>Python values used by the remote\<close>

text \<open>
  The module is Python 2 code: it hands \<open>str\<close> objects to the serial port, and \<open>/\<close> on
  two integers is floor division. A \<open>str\<close> is a byte string, modelled as \<open>string\<close>;
  an integer is unbounded, modelled as \<open>int\<close>.
\<close>

abbreviation CR :: char where
  "CR \<equiv> CHR 0x0D"

definition digit :: "nat \<Rightarrow> char" where
  "digit d = ''0123456789'' ! d"

text \<open>The decimal digits of a natural number, most significant first.\<close>

fun decimal :: "nat \<Rightarrow> string" where
  "decimal n = (if n < 10 then [digit n] else decimal (n div 10) @ [digit (n mod 10)])"

declare decimal.simps [simp del]

text \<open>What \<open>'{}'.format(i)\<close> and \<open>'%d' % i\<close> produce for an integer \<open>i\<close>.\<close>

definition str :: "int \<Rightarrow> string" where
  "str i = (if i < 0 then CHR ''-'' # decimal (nat (- i)) else decimal (nat i))"

text \<open>
  What \<open>'{}'.format(r)\<close> produces for the value \<open>query\<close> returns: the bytes themselves,
  or the text \<open>None\<close> when \<open>query\<close> returned nothing.
\<close>

fun format_reply :: "string option \<Rightarrow> string" where
  "format_reply None = ''None''"
| "format_reply (Some r) = r"

section \<open>Outcomes of a call\<close>

text \<open>
  A call returns a value, raises an exception, or never returns (a read that waits for
  bytes the receiver does not send). Every operation also returns the state it leaves.
\<close>

datatype exn = AttributeError | SerialException | ValueError

datatype 'a outcome = Return 'a | Raise exn | Blocks

section \<open>The serial port\<close>

text \<open>
  The port object of the serial library, as far as the remote uses it: its baud rate,
  the name of its device (\<open>None\<close> until one is assigned), whether it is open, the byte strings handed to \<open>write\<close> so far (one entry per call,
  oldest first), and the bytes the receiver delivers to it (those not yet read).
\<close>

record serial =
  baudrate :: int
  portstr :: "string option"
  is_open :: bool
  tx :: "string list"
  rx :: string

text \<open>
  \<open>serial.Serial()\<close> without arguments: a closed port object with the library's default
  baud rate and no device name. The bytes the receiver will deliver are given from outside.
\<close>

definition Serial :: "string \<Rightarrow> serial" where
  "Serial incoming =
     \<lparr>baudrate = 9600, portstr = None, is_open = False, tx = [], rx = incoming\<rparr>"

text \<open>
  The setter behind \<open>port.baudrate = b\<close>: a negative value is refused with ValueError
  and the port object is left as it was.
\<close>

definition set_baudrate :: "int \<Rightarrow> serial \<Rightarrow> unit outcome \<times> serial" where
  "set_baudrate b p =
     (if b < 0 then (Raise ValueError, p) else (Return (), p\<lparr>baudrate := b\<rparr>))"

text \<open>
  The setter behind \<open>port.port = name\<close>, for a string and a port object that is closed
  (the only use the remote makes of it): it stores the name.
\<close>

definition set_portstr :: "string \<Rightarrow> serial \<Rightarrow> serial" where
  "set_portstr name p = p\<lparr>portstr := Some name\<rparr>"

text \<open>
  \<open>port.open()\<close>. The library refuses a port object without a device name and one that
  is open already. Otherwise the outcome lies with the operating system: \<open>failure\<close> is
  \<open>None\<close> when the device is opened, and the exception the library raises when it is
  not (the device is missing or busy, or the platform rejects a setting); the port object
  then stays closed.
\<close>

definition serial_open :: "exn option \<Rightarrow> serial \<Rightarrow> unit outcome \<times> serial" where
  "serial_open failure p =
     (if portstr p = None then (Raise SerialException, p)
      else if is_open p then (Raise SerialException, p)
      else (case failure of
              None \<Rightarrow> (Return (), p\<lparr>is_open := True\<rparr>)
            | Some e \<Rightarrow> (Raise e, p)))"

definition isOpen :: "serial \<Rightarrow> bool" where
  "isOpen p = is_open p"

text \<open>\<open>write\<close> refuses a port that is not open; on an open port it sends the bytes.\<close>

definition serial_write :: "string \<Rightarrow> serial \<Rightarrow> nat outcome \<times> serial" where
  "serial_write data p =
     (if \<not> is_open p then (Raise SerialException, p)
      else (Return (length data), p\<lparr>tx := tx p @ [data]\<rparr>))"

text \<open>
  The loop of \<open>read_until\<close>: it takes one byte at a time, appends it to the line, and
  stops when the line ends with the terminator or has reached \<open>sz\<close> bytes (the
  argument \<open>size\<close>). The port is created without a timeout, so taking a byte waits until one arrives: when the
  receiver delivers no further byte the loop never ends, which is the value \<open>None\<close>.
  The result is the line read (terminator included) and the bytes left unread.
\<close>

fun read_loop :: "char \<Rightarrow> nat \<Rightarrow> string \<Rightarrow> string \<Rightarrow> (string \<times> string) option" where
  "read_loop terminator sz line [] = None"
| "read_loop terminator sz line (c # pending) =
     (let line' = line @ [c] in
      if last line' = terminator then Some (line', pending)
      else if sz \<le> length line' then Some (line', pending)
      else read_loop terminator sz line' pending)"

definition read_until :: "char \<Rightarrow> nat \<Rightarrow> serial \<Rightarrow> string outcome \<times> serial" where
  "read_until terminator sz p =
     (if \<not> is_open p then (Raise SerialException, p)
      else (case read_loop terminator sz [] (rx p) of
              None \<Rightarrow> (Blocks, p\<lparr>rx := []\<rparr>)
            | Some (line, pending) \<Rightarrow> (Return line, p\<lparr>rx := pending\<rparr>)))"

section \<open>The remote\<close>

datatype level = DEBUG | INFO | WARNING | ERROR | CRITICAL

text \<open>
  The attributes of a \<open>DenonRemote\<close> object and its logger. \<open>port\<close> is \<open>None\<close> until
  \<open>open\<close> assigns the attribute. \<open>logged\<close> holds the calls made on the logger, oldest
  first, each with its severity and its formatted message; \<open>log_level\<close> is the
  threshold the logger was given.
\<close>

record remote =
  port_name :: string
  baud_rate :: int
  port :: "serial option"
  log_level :: level
  logged :: "(level \<times> string) list"

definition logger :: "level \<Rightarrow> string \<Rightarrow> remote \<Rightarrow> remote" where
  "logger lvl msg s = s\<lparr>logged := logged s @ [(lvl, msg)]\<rparr>"

definition init_logging :: "level \<Rightarrow> remote \<Rightarrow> remote" where
  "init_logging lvl s = logger DEBUG ''logging initialized'' (s\<lparr>log_level := lvl\<rparr>)"

text \<open>
  The constructor. An argument left out is \<open>None\<close> and takes its default:
  \<open>log_level=logging.ERROR\<close>, \<open>baud_rate=9600\<close>.
\<close>

definition DenonRemote :: "string \<Rightarrow> level option \<Rightarrow> int option \<Rightarrow> remote" where
  "DenonRemote name lvl baud =
     (let s = init_logging (case lvl of None \<Rightarrow> ERROR | Some l \<Rightarrow> l)
                \<lparr>port_name = [], baud_rate = 0, port = None, log_level = ERROR, logged = []\<rparr>
      in s\<lparr>port_name := name,
           baud_rate := (case baud of None \<Rightarrow> 9600 | Some b \<Rightarrow> b)\<rparr>)"

text \<open>
  \<open>open\<close> logs, assigns a fresh port object to the attribute, sets its baud rate and
  then its device name from the two connection parameters, and opens it. The outcome of
  the library's \<open>open\<close> (\<open>failure\<close>) and the bytes the receiver will deliver
  (\<open>incoming\<close>) are given from outside. An exception of a setter or of the library's
  \<open>open\<close> ends the operation there: the attribute keeps the port object as far as it was
  configured.
\<close>

definition open_port :: "exn option \<Rightarrow> string \<Rightarrow> remote \<Rightarrow> unit outcome \<times> remote" where
  "open_port failure incoming s =
     (let s1 = logger DEBUG (''opening '' @ port_name s) s;
          s2 = s1\<lparr>port := Some (Serial incoming)\<rparr>
      in case set_baudrate (baud_rate s2) (Serial incoming) of
           (Raise e, p1) \<Rightarrow> (Raise e, s2\<lparr>port := Some p1\<rparr>)
         | (Blocks, p1) \<Rightarrow> (Blocks, s2\<lparr>port := Some p1\<rparr>)
         | (Return u, p1) \<Rightarrow>
             (case serial_open failure (set_portstr (port_name s2) p1) of
                (Return v, p2) \<Rightarrow> (Return (), s2\<lparr>port := Some p2\<rparr>)
              | (Raise e, p2) \<Rightarrow> (Raise e, s2\<lparr>port := Some p2\<rparr>)
              | (Blocks, p2) \<Rightarrow> (Blocks, s2\<lparr>port := Some p2\<rparr>)))"

definition close_port :: "remote \<Rightarrow> unit outcome \<times> remote" where
  "close_port s =
     (let s1 = logger DEBUG (''closing '' @ port_name s) s
      in case port s1 of
           None \<Rightarrow> (Raise AttributeError, s1)
         | Some p \<Rightarrow> (Return (), s1\<lparr>port := Some (p\<lparr>is_open := False\<rparr>)\<rparr>))"

definition query :: "string \<Rightarrow> remote \<Rightarrow> string option outcome \<times> remote" where
  "query q s =
     (case port s of
        None \<Rightarrow> (Raise AttributeError, s)
      | Some p \<Rightarrow>
          if isOpen p = False
          then (Return None, logger ERROR ''Tried to send a command but port wasn't open'' s)
          else (case serial_write (q @ ''?'' @ [CR]) p of
                  (Return n, p1) \<Rightarrow>
                    (case read_until CR 135 p1 of
                       (Return resp, p2) \<Rightarrow> (Return (Some resp), s\<lparr>port := Some p2\<rparr>)
                     | (Raise e, p2) \<Rightarrow> (Raise e, s\<lparr>port := Some p2\<rparr>)
                     | (Blocks, p2) \<Rightarrow> (Blocks, s\<lparr>port := Some p2\<rparr>))
                | (Raise e, p1) \<Rightarrow> (Raise e, s\<lparr>port := Some p1\<rparr>)
                | (Blocks, p1) \<Rightarrow> (Blocks, s\<lparr>port := Some p1\<rparr>)))"

definition command :: "string \<Rightarrow> remote \<Rightarrow> unit outcome \<times> remote" where
  "command c s =
     (case port s of
        None \<Rightarrow> (Raise AttributeError, s)
      | Some p \<Rightarrow>
          if isOpen p = False
          then (Return (), logger ERROR ''Tried to send a command but port wasn't open'' s)
          else (case serial_write (c @ [CR]) p of
                  (Return n, p1) \<Rightarrow> (Return (), s\<lparr>port := Some p1\<rparr>)
                | (Raise e, p1) \<Rightarrow> (Raise e, s\<lparr>port := Some p1\<rparr>)
                | (Blocks, p1) \<Rightarrow> (Blocks, s\<lparr>port := Some p1\<rparr>)))"

definition power_off :: "remote \<Rightarrow> unit outcome \<times> remote" where
  "power_off s = command ''PWSTANDBY'' (logger INFO ''powering off'' s)"

definition power_on :: "remote \<Rightarrow> unit outcome \<times> remote" where
  "power_on s = command ''PWON'' (logger INFO ''powering on'' s)"

text \<open>
  The three status queries log the reply once \<open>query\<close> has returned; when \<open>query\<close>
  raises or never returns, so does the operation.
\<close>

definition log_reply :: "string \<Rightarrow> string option outcome \<times> remote \<Rightarrow> unit outcome \<times> remote" where
  "log_reply label r =
     (case r of
        (Return resp, s) \<Rightarrow> (Return (), logger INFO (label @ format_reply resp) s)
      | (Raise e, s) \<Rightarrow> (Raise e, s)
      | (Blocks, s) \<Rightarrow> (Blocks, s))"

definition query_power :: "remote \<Rightarrow> unit outcome \<times> remote" where
  "query_power s =
     log_reply ''power: '' (query ''PW'' (logger INFO ''querying power status'' s))"

definition query_volume :: "remote \<Rightarrow> unit outcome \<times> remote" where
  "query_volume s =
     log_reply ''volume: '' (query ''MV'' (logger INFO ''querying volume status'' s))"

text \<open>
  \<open>set_volume\<close> takes the percentage as an integer, which is what the command line hands
  it (\<open>type=int\<close>); the product is divided by 100 first and the minimum added after.
\<close>

definition set_volume :: "int \<Rightarrow> remote \<Rightarrow> unit outcome \<times> remote" where
  "set_volume volume_level s =
     (let max_volume = 65;
          min_volume = 25;
          new_volume = (volume_level * (max_volume - min_volume)) div 100 + min_volume
      in if new_volume > max_volume
         then (Return (),
               logger ERROR
                 (''calculated volume setting above max volume level: '' @ str new_volume) s)
         else command (''MV'' @ str new_volume)
                (logger INFO
                   (''setting volume to '' @ str volume_level @ ''% (MV'' @ str new_volume @ '')'')
                   s))"

definition query_source :: "remote \<Rightarrow> unit outcome \<times> remote" where
  "query_source s =
     log_reply ''source: '' (query ''SI'' (logger INFO ''querying input source'' s))"

definition set_source :: "string \<Rightarrow> remote \<Rightarrow> unit outcome \<times> remote" where
  "set_source source_name s =
     command (''SI'' @ source_name) (logger INFO (''setting source to '' @ source_name) s)"

section \<open>Sessions and calls used in the statements\<close>

text \<open>
  A remote constructed for port \<open>COM3\<close> with the default arguments and opened
  successfully, the receiver delivering the bytes \<open>incoming\<close>.
\<close>

definition opened :: "string \<Rightarrow> remote" where
  "opened incoming = snd (open_port None incoming (DenonRemote ''COM3'' None None))"

text \<open>
  The public methods of the class with their arguments, and the state a call leaves.
\<close>

datatype call =
    Open "exn option" string
  | Close
  | Query string
  | Command string
  | Power_off
  | Power_on
  | Query_power
  | Query_volume
  | Set_volume int
  | Query_source
  | Set_source string

fun exec :: "call \<Rightarrow> remote \<Rightarrow> remote" where
  "exec (Open failure incoming) s = snd (open_port failure incoming s)"
| "exec Close s = snd (close_port s)"
| "exec (Query q) s = snd (query q s)"
| "exec (Command c) s = snd (command c s)"
| "exec Power_off s = snd (power_off s)"
| "exec Power_on s = snd (power_on s)"
| "exec Query_power s = snd (query_power s)"
| "exec Query_volume s = snd (query_volume s)"
| "exec (Set_volume v) s = snd (set_volume v s)"
| "exec Query_source s = snd (query_source s)"
| "exec (Set_source n) s = snd (set_source n s)"

fun opens :: "call \<Rightarrow> bool" where
  "opens (Open failure incoming) = True"
| "opens c = False"

text \<open>The byte strings written to the transport through the remote's port so far.\<close>

definition written :: "remote \<Rightarrow> string list" where
  "written s = (case port s of None \<Rightarrow> [] | Some p \<Rightarrow> tx p)"

section \<open>Auxiliary facts\<close>

lemma read_loop_eq:
  "read_loop t sz line xs =
    (let n = min (Suc (length (takeWhile (\<lambda>c. c \<noteq> t) xs))) (max 1 (sz - length line))
     in if n \<le> length xs then Some (line @ take n xs, drop n xs) else None)"
proof (induction xs arbitrary: line)
  case Nil
  then show ?case by (simp add: Let_def)
next
  case (Cons c xs)
  show ?case
  proof (cases "c = t \<or> sz \<le> Suc (length line)")
    case True
    then have "min (Suc (length (takeWhile (\<lambda>c. c \<noteq> t) (c # xs)))) (max 1 (sz - length line)) = 1"
      by (auto simp: min_def max_def)
    then show ?thesis using True by (auto simp: Let_def)
  next
    case False
    then have "read_loop t sz line (c # xs) = read_loop t sz (line @ [c]) xs"
      by (simp add: Let_def)
    also have "\<dots> = (let n = min (Suc (length (takeWhile (\<lambda>c. c \<noteq> t) xs))) (max 1 (sz - length (line @ [c])))
     in if n \<le> length xs then Some ((line @ [c]) @ take n xs, drop n xs) else None)"
      by (rule Cons.IH)
    also have "\<dots> = (let n = min (Suc (length (takeWhile (\<lambda>c. c \<noteq> t) (c # xs)))) (max 1 (sz - length line))
     in if n \<le> length (c # xs) then Some (line @ take n (c # xs), drop n (c # xs)) else None)"
      using False by (auto simp: Let_def min_def max_def take_Cons' drop_Cons')
    finally show ?thesis .
  qed
qed

lemma decimal_digits: "set (decimal n) \<subseteq> set ''0123456789''"
proof (induction n rule: decimal.induct)
  case (1 n)
  have d: "\<And>k. k < 10 \<Longrightarrow> digit k \<in> set ''0123456789''"
    unfolding digit_def by (rule nth_mem) simp
  show ?case
  proof (cases "n < 10")
    case True
    then show ?thesis using d[of n] by (subst decimal.simps) simp
  next
    case False
    have "n mod 10 < 10" by simp
    then show ?thesis using False 1 d[of "n mod 10"] by (subst decimal.simps) simp
  qed
qed

lemma decimal_nonempty: "decimal n \<noteq> []"
  by (subst decimal.simps) simp

lemma str_no_CR: "CR \<notin> set (str i)"
  using decimal_digits by (auto simp: str_def)

lemma str_nonempty: "str i \<noteq> []"
  by (simp add: str_def decimal_nonempty)

lemma volume_upper: "(v::int) \<le> 100 \<Longrightarrow> (v * (65 - 25)) div 100 + 25 \<le> 65"
proof -
  assume "v \<le> 100"
  then have "v * 40 \<le> 4000" by simp
  then have "(v * 40) div 100 \<le> 4000 div 100" by (rule zdiv_mono1) simp
  then show ?thesis by simp
qed

lemma volume_lower: "0 \<le> (v::int) \<Longrightarrow> 25 \<le> (v * (65 - 25)) div 100 + 25"
proof -
  assume "0 \<le> v"
  then have "0 \<le> v * 40" by simp
  then have "0 \<le> (v * 40) div 100" by (simp add: pos_imp_zdiv_nonneg_iff)
  then show ?thesis by simp
qed


lemma command_open:
  "port s = Some p \<Longrightarrow> is_open p \<Longrightarrow>
   command c s = (Return (), s\<lparr>port := Some (p\<lparr>tx := tx p @ [c @ [CR]]\<rparr>)\<rparr>)"
  by (simp add: command_def isOpen_def serial_write_def)

lemma command_closed:
  "port s = Some p \<Longrightarrow> \<not> is_open p \<Longrightarrow>
   command c s = (Return (), logger ERROR ''Tried to send a command but port wasn't open'' s)"
  by (simp add: command_def isOpen_def)

lemma command_unassigned:
  "port s = None \<Longrightarrow> command c s = (Raise AttributeError, s)"
  by (simp add: command_def)

lemma port_logger [simp]: "port (logger lvl msg s) = port s"
  by (simp add: logger_def)

lemma port_name_logger [simp]: "port_name (logger lvl msg s) = port_name s"
  by (simp add: logger_def)

lemma baud_rate_logger [simp]: "baud_rate (logger lvl msg s) = baud_rate s"
  by (simp add: logger_def)

lemma logged_logger [simp]: "logged (logger lvl msg s) = logged s @ [(lvl, msg)]"
  by (simp add: logger_def)

lemma port_opened:
  "port (opened incoming) =
     Some \<lparr>baudrate = 9600, portstr = Some ''COM3'', is_open = True, tx = [], rx = incoming\<rparr>"
  by (simp add: opened_def open_port_def Serial_def set_baudrate_def set_portstr_def
      serial_open_def DenonRemote_def init_logging_def Let_def)

section \<open>Volume\<close>

text \<open>
  Claim C1. For every percent in [0,100], \<open>set_volume\<close> computes the device value
  \<open>percent * (65 - 25) div 100 + 25\<close> in integer arithmetic, which lies between 25 and 65,
  and sends the command \<open>MV\<close> followed by that value: the operation is the call of
  \<open>command\<close> with that string, and on an open session exactly that string and a carriage
  return are written. At 0, 50 and 100 the strings are \<open>MV25\<close>, \<open>MV45\<close> and \<open>MV65\<close>.
\<close>

theorem set_volume_percent:
  assumes "0 \<le> percent" and "percent \<le> 100"
  shows "25 \<le> percent * (65 - 25) div 100 + 25 \<and> percent * (65 - 25) div 100 + 25 \<le> 65 \<and>
         set_volume percent s =
           command (''MV'' @ str (percent * (65 - 25) div 100 + 25))
             (logger INFO
                (''setting volume to '' @ str percent @ ''% (MV'' @
                 str (percent * (65 - 25) div 100 + 25) @ '')'') s) \<and>
         (\<forall>p. port s = Some p \<and> is_open p \<longrightarrow>
            fst (set_volume percent s) = Return () \<and>
            port (snd (set_volume percent s)) =
              Some (p\<lparr>tx := tx p @ [''MV'' @ str (percent * (65 - 25) div 100 + 25) @ [CR]]\<rparr>))"
proof -
  define device where "device = percent * (65 - 25) div 100 + 25"
  have lo: "25 \<le> device" unfolding device_def using assms(1) by (rule volume_lower)
  have hi: "device \<le> 65" unfolding device_def using assms(2) by (rule volume_upper)
  have sv: "set_volume percent s =
      command (''MV'' @ str device)
        (logger INFO (''setting volume to '' @ str percent @ ''% (MV'' @ str device @ '')'') s)"
    using hi unfolding set_volume_def Let_def device_def by simp
  have tr: "fst (set_volume percent s) = Return () \<and>
            port (snd (set_volume percent s)) = Some (p\<lparr>tx := tx p @ [''MV'' @ str device @ [CR]]\<rparr>)"
    if "port s = Some p \<and> is_open p" for p
    using that by (simp add: sv command_open)
  show ?thesis using lo hi sv tr unfolding device_def by blast
qed

theorem set_volume_percent_witness:
  "(0::int) \<le> 0 \<and> (0::int) \<le> 100 \<and> (0::int) \<le> 50 \<and> (50::int) \<le> 100 \<and> (0::int) \<le> 100 \<and> (100::int) \<le> 100 \<and>
   map_option tx (port (snd (set_volume 0 (opened [])))) = Some [''MV25'' @ [CR]] \<and>
   map_option tx (port (snd (set_volume 50 (opened [])))) = Some [''MV45'' @ [CR]] \<and>
   map_option tx (port (snd (set_volume 100 (opened [])))) = Some [''MV65'' @ [CR]]"
proof -
  have b0: "(0::int) \<le> 0" "(0::int) \<le> 100" and b50: "(0::int) \<le> 50" "(50::int) \<le> 100"
    and b100: "(0::int) \<le> 100" "(100::int) \<le> 100"
    by simp_all
  have "\<forall>p. port (opened []) = Some p \<and> is_open p \<longrightarrow>
          port (snd (set_volume 0 (opened []))) =
            Some (p\<lparr>tx := tx p @ [''MV'' @ str (0 * (65 - 25) div 100 + 25) @ [CR]]\<rparr>)"
    using set_volume_percent [OF b0, of "opened []"] by blast
  then have v0: "map_option tx (port (snd (set_volume 0 (opened [])))) = Some [''MV25'' @ [CR]]"
    by (simp add: port_opened str_def decimal.simps digit_def)
  have "\<forall>p. port (opened []) = Some p \<and> is_open p \<longrightarrow>
          port (snd (set_volume 50 (opened []))) =
            Some (p\<lparr>tx := tx p @ [''MV'' @ str (50 * (65 - 25) div 100 + 25) @ [CR]]\<rparr>)"
    using set_volume_percent [OF b50, of "opened []"] by blast
  then have v50: "map_option tx (port (snd (set_volume 50 (opened [])))) = Some [''MV45'' @ [CR]]"
    by (simp add: port_opened str_def decimal.simps digit_def)
  have "\<forall>p. port (opened []) = Some p \<and> is_open p \<longrightarrow>
          port (snd (set_volume 100 (opened []))) =
            Some (p\<lparr>tx := tx p @ [''MV'' @ str (100 * (65 - 25) div 100 + 25) @ [CR]]\<rparr>)"
    using set_volume_percent [OF b100, of "opened []"] by blast
  then have v100: "map_option tx (port (snd (set_volume 100 (opened [])))) = Some [''MV65'' @ [CR]]"
    by (simp add: port_opened str_def decimal.simps digit_def)
  show ?thesis using v0 v50 v100 by simp
qed

text \<open>
  Claim C2. Whenever the computed device value exceeds 65, \<open>set_volume\<close> returns
  normally in every state (also when no port was ever assigned), leaves the port and so
  the transport untouched, and its only effect is one call of the logger at severity
  ERROR carrying the computed value.
\<close>

theorem set_volume_above_max:
  assumes "volume_level * (65 - 25) div 100 + 25 > 65"
  shows "set_volume volume_level s =
           (Return (),
            logger ERROR (''calculated volume setting above max volume level: '' @
                          str (volume_level * (65 - 25) div 100 + 25)) s) \<and>
         port (snd (set_volume volume_level s)) = port s \<and>
         logged (snd (set_volume volume_level s)) =
           logged s @ [(ERROR, ''calculated volume setting above max volume level: '' @
                          str (volume_level * (65 - 25) div 100 + 25))]"
proof -
  have "set_volume volume_level s =
           (Return (),
            logger ERROR (''calculated volume setting above max volume level: '' @
                          str (volume_level * (65 - 25) div 100 + 25)) s)"
    using assms unfolding set_volume_def Let_def by simp
  then show ?thesis by simp
qed

theorem set_volume_above_max_witness:
  "(103::int) * (65 - 25) div 100 + 25 > 65 \<and>
   fst (set_volume 103 (opened [])) = Return () \<and>
   map_option tx (port (snd (set_volume 103 (opened [])))) = Some [] \<and>
   last (logged (snd (set_volume 103 (opened [])))) =
     (ERROR, ''calculated volume setting above max volume level: 66'') \<and>
   set_volume 103 (DenonRemote ''COM3'' None None) =
     (Return (), logger ERROR ''calculated volume setting above max volume level: 66''
                   (DenonRemote ''COM3'' None None))"
  using set_volume_above_max [of 103 "opened []"]
    set_volume_above_max [of 103 "DenonRemote ''COM3'' None None"]
  by (simp add: port_opened str_def decimal.simps digit_def)

section \<open>Queries\<close>

lemma query_open:
  assumes "port s = Some p" and "is_open p"
  shows "query q s =
    (let n = min (Suc (length (takeWhile (\<lambda>c. c \<noteq> CR) (rx p)))) 135;
         p1 = p\<lparr>tx := tx p @ [q @ ''?'' @ [CR]]\<rparr>
     in if n \<le> length (rx p)
        then (Return (Some (take n (rx p))), s\<lparr>port := Some (p1\<lparr>rx := drop n (rx p)\<rparr>)\<rparr>)
        else (Blocks, s\<lparr>port := Some (p1\<lparr>rx := []\<rparr>)\<rparr>))"
  using assms
  by (simp add: query_def isOpen_def serial_write_def read_until_def read_loop_eq Let_def)

lemma query_closed:
  "port s = Some p \<Longrightarrow> \<not> is_open p \<Longrightarrow>
   query q s = (Return None, logger ERROR ''Tried to send a command but port wasn't open'' s)"
  by (simp add: query_def isOpen_def)

lemma query_unassigned:
  "port s = None \<Longrightarrow> query q s = (Raise AttributeError, s)"
  by (simp add: query_def)

lemma take_below_takeWhile:
  assumes "m \<le> length (takeWhile P xs)"
  shows "take m xs = take m (takeWhile P xs)"
proof -
  have "take m xs = take m (takeWhile P xs @ dropWhile P xs)" by simp
  also have "\<dots> = take m (takeWhile P xs)" using assms by (simp del: takeWhile_dropWhile_id)
  finally show ?thesis .
qed

lemma no_terminator_before:
  assumes "m \<le> length (takeWhile (\<lambda>c. c \<noteq> t) xs)"
  shows "t \<notin> set (take m xs)"
proof
  assume "t \<in> set (take m xs)"
  then have "t \<in> set (take m (takeWhile (\<lambda>c. c \<noteq> t) xs))"
    using take_below_takeWhile [OF assms] by simp
  then have "t \<in> set (takeWhile (\<lambda>c. c \<noteq> t) xs)" by (rule in_set_takeD)
  then show False by (auto dest: set_takeWhileD)
qed

lemma terminator_at:
  assumes "length (takeWhile (\<lambda>c. c \<noteq> t) xs) < length xs"
  shows "last (take (Suc (length (takeWhile (\<lambda>c. c \<noteq> t) xs))) xs) = t"
proof -
  let ?k = "length (takeWhile (\<lambda>c. c \<noteq> t) xs)"
  have "\<not> (xs ! ?k \<noteq> t)" using assms by (rule nth_length_takeWhile)
  moreover have "take (Suc ?k) xs = take ?k xs @ [xs ! ?k]"
    using assms by (rule take_Suc_conv_app_nth)
  ultimately show ?thesis by simp
qed

lemma takeWhile_all:
  assumes "length xs \<le> length (takeWhile (\<lambda>c. c \<noteq> t) xs)"
  shows "t \<notin> set xs"
  using no_terminator_before [OF assms] by simp

text \<open>
  Claim C3. On an open session \<open>query\<close> first writes exactly the code, a question mark
  and a carriage return, as one write, whatever the read does afterwards. The read never
  raises. When it returns, the reply is a non-empty prefix of the incoming bytes of at
  most 135 bytes with no carriage return before its last byte, and it ends either with
  the first carriage return or at 135 bytes. It fails to return exactly when the receiver
  delivers fewer than 135 bytes and no carriage return.
\<close>

theorem query_writes_then_reads:
  assumes "port s = Some p" and "is_open p"
  shows "\<exists>oc p'. query q s = (oc, s\<lparr>port := Some p'\<rparr>) \<and>
           tx p' = tx p @ [q @ ''?'' @ [CR]] \<and>
           (case oc of
              Return r \<Rightarrow>
                (\<exists>resp. r = Some resp \<and> resp \<noteq> [] \<and> length resp \<le> 135 \<and>
                   resp @ rx p' = rx p \<and> CR \<notin> set (butlast resp) \<and>
                   (last resp = CR \<or> length resp = 135))
            | Raise e \<Rightarrow> False
            | Blocks \<Rightarrow> CR \<notin> set (rx p) \<and> length (rx p) < 135)"
proof -
  let ?xs = "rx p"
  let ?k = "length (takeWhile (\<lambda>c. c \<noteq> CR) ?xs)"
  let ?n = "min (Suc ?k) 135"
  let ?p1 = "p\<lparr>tx := tx p @ [q @ ''?'' @ [CR]]\<rparr>"
  show ?thesis
  proof (cases "?n \<le> length ?xs")
    case True
    let ?resp = "take ?n ?xs"
    have q: "query q s = (Return (Some ?resp), s\<lparr>port := Some (?p1\<lparr>rx := drop ?n ?xs\<rparr>)\<rparr>)"
      using True query_open [OF assms, of q] by (simp add: Let_def)
    have len: "length ?resp = ?n" using True by simp
    have ne: "?resp \<noteq> []" using len by auto
    have "butlast ?resp = take (?n - 1) ?xs"
      using True by (simp add: butlast_take)
    moreover have "?n - 1 \<le> ?k" by simp
    ultimately have nocr: "CR \<notin> set (butlast ?resp)"
      using no_terminator_before [of "?n - 1" CR ?xs] by simp
    have stop: "last ?resp = CR \<or> length ?resp = 135"
    proof (cases "Suc ?k \<le> 135")
      case le: True
      then have n: "?n = Suc ?k" by simp
      then have "?k < length ?xs" using True by simp
      then have "last (take (Suc ?k) ?xs) = CR" by (rule terminator_at)
      then show ?thesis using n by simp
    next
      case False
      then have "?n = 135" by simp
      then show ?thesis using len by simp
    qed
    have "?resp @ drop ?n ?xs = ?xs" by simp
    with q len ne nocr stop show ?thesis by (intro exI [of _ "Return (Some ?resp)"] exI [of _ "?p1\<lparr>rx := drop ?n ?xs\<rparr>"]) simp
  next
    case False
    have q: "query q s = (Blocks, s\<lparr>port := Some (?p1\<lparr>rx := []\<rparr>)\<rparr>)"
      using False query_open [OF assms, of q] by (simp add: Let_def)
    have "?k \<le> length ?xs" by (rule length_takeWhile_le)
    with False have all: "length ?xs \<le> ?k" and short: "length ?xs < 135" by auto
    from all have "CR \<notin> set ?xs" by (rule takeWhile_all)
    with q short show ?thesis by (intro exI [of _ Blocks] exI [of _ "?p1\<lparr>rx := []\<rparr>"]) simp
  qed
qed


theorem query_writes_then_reads_witness:
  "port (opened (''PWON'' @ [CR] @ ''xyz'')) =
     Some \<lparr>baudrate = 9600, portstr = Some ''COM3'', is_open = True, tx = [],
           rx = ''PWON'' @ [CR] @ ''xyz''\<rparr> \<and>
   is_open \<lparr>baudrate = 9600, portstr = Some ''COM3'', is_open = True, tx = [],
            rx = ''PWON'' @ [CR] @ ''xyz''\<rparr> \<and>
   (\<exists>p'. query ''PW'' (opened (''PWON'' @ [CR] @ ''xyz'')) =
            (Return (Some (''PWON'' @ [CR])), opened (''PWON'' @ [CR] @ ''xyz'')\<lparr>port := Some p'\<rparr>) \<and>
          tx p' = [''PW?'' @ [CR]] \<and> rx p' = ''xyz'')"
proof -
  let ?s = "opened (''PWON'' @ [CR] @ ''xyz'')"
  let ?p = "\<lparr>baudrate = 9600, portstr = Some ''COM3'', is_open = True, tx = [],
             rx = ''PWON'' @ [CR] @ ''xyz''\<rparr>"
  have h1: "port ?s = Some ?p" by (rule port_opened)
  have h2: "is_open ?p" by simp
  obtain oc p' where q: "query ''PW'' ?s = (oc, ?s\<lparr>port := Some p'\<rparr>)"
    and w: "tx p' = tx ?p @ [''PW'' @ ''?'' @ [CR]]"
    and r: "(case oc of
              Return r \<Rightarrow>
                (\<exists>resp. r = Some resp \<and> resp \<noteq> [] \<and> length resp \<le> 135 \<and>
                   resp @ rx p' = rx ?p \<and> CR \<notin> set (butlast resp) \<and>
                   (last resp = CR \<or> length resp = 135))
            | Raise e \<Rightarrow> False
            | Blocks \<Rightarrow> CR \<notin> set (rx ?p) \<and> length (rx ?p) < 135)"
    using query_writes_then_reads [OF h1 h2, of "''PW''"] by blast
  have "fst (query ''PW'' ?s) = Return (Some (''PWON'' @ [CR]))"
    using query_open [OF h1 h2, of "''PW''"] by (simp add: Let_def)
  then have oc: "oc = Return (Some (''PWON'' @ [CR]))" using q by simp
  then have "(''PWON'' @ [CR]) @ rx p' = rx ?p" using r by simp
  then have left: "rx p' = ''xyz''" by simp
  have sent: "tx p' = [''PW?'' @ [CR]]" using w by simp
  have "\<exists>p'. query ''PW'' ?s = (Return (Some (''PWON'' @ [CR])), ?s\<lparr>port := Some p'\<rparr>) \<and>
          tx p' = [''PW?'' @ [CR]] \<and> rx p' = ''xyz''"
    using q oc sent left by blast
  with h1 h2 show ?thesis by blast
qed

lemma takeWhile_covers:
  assumes "t \<notin> set (take m xs)" and "m \<le> length xs"
  shows "m \<le> length (takeWhile (\<lambda>c. c \<noteq> t) xs)"
proof -
  have "takeWhile (\<lambda>c. c \<noteq> t) (take m xs @ drop m xs) =
          take m xs @ takeWhile (\<lambda>c. c \<noteq> t) (drop m xs)"
    using assms(1) by (intro takeWhile_append2) auto
  then have "length (takeWhile (\<lambda>c. c \<noteq> t) xs) =
          length (take m xs) + length (takeWhile (\<lambda>c. c \<noteq> t) (drop m xs))"
    by simp
  then show ?thesis using assms(2) by simp
qed

text \<open>
  Claim C7. When the receiver delivers at least 135 bytes (200, say) and no carriage
  return among the first 135, \<open>query\<close> returns normally and hands the caller exactly the
  first 135 bytes; the remaining bytes stay unread.
\<close>

theorem query_truncates:
  assumes "port s = Some p" and "is_open p"
    and "135 \<le> length (rx p)" and "CR \<notin> set (take 135 (rx p))"
  shows "query q s =
           (Return (Some (take 135 (rx p))),
            s\<lparr>port := Some (p\<lparr>tx := tx p @ [q @ ''?'' @ [CR]], rx := drop 135 (rx p)\<rparr>)\<rparr>) \<and>
         length (take 135 (rx p)) = 135"
proof -
  have "135 \<le> length (takeWhile (\<lambda>c. c \<noteq> CR) (rx p))"
    using assms(4) assms(3) by (rule takeWhile_covers)
  then have "min (Suc (length (takeWhile (\<lambda>c. c \<noteq> CR) (rx p)))) 135 = 135" by simp
  then show ?thesis using query_open [OF assms(1) assms(2), of q] assms(3) by (simp add: Let_def)
qed

theorem query_truncates_witness:
  "port (opened (replicate 200 CHR ''a'')) =
     Some \<lparr>baudrate = 9600, portstr = Some ''COM3'', is_open = True, tx = [],
           rx = replicate 200 CHR ''a''\<rparr> \<and>
   is_open \<lparr>baudrate = 9600, portstr = Some ''COM3'', is_open = True, tx = [],
            rx = replicate 200 CHR ''a''\<rparr> \<and>
   135 \<le> length (replicate 200 CHR ''a'') \<and>
   CR \<notin> set (take 135 (replicate 200 CHR ''a'')) \<and>
   fst (query ''MV'' (opened (replicate 200 CHR ''a''))) = Return (Some (replicate 135 CHR ''a'')) \<and>
   map_option rx (port (snd (query ''MV'' (opened (replicate 200 CHR ''a''))))) =
     Some (replicate 65 CHR ''a'')"
proof -
  let ?p = "\<lparr>baudrate = 9600, portstr = Some ''COM3'', is_open = True, tx = [],
             rx = replicate 200 CHR ''a''\<rparr>"
  have h1: "port (opened (replicate 200 CHR ''a'')) = Some ?p" by (rule port_opened)
  have h2: "is_open ?p" by simp
  have h3: "135 \<le> length (rx ?p)" by simp
  have h4: "CR \<notin> set (take 135 (rx ?p))" by simp
  show ?thesis using query_truncates [OF h1 h2 h3 h4, of "''MV''"] h1 by simp
qed

section \<open>Commands\<close>

text \<open>
  Claim C5. On an open session \<open>set_source("TUNER")\<close> writes exactly the bytes
  \<open>SITUNER\<close> and one carriage return, and \<open>power_off()\<close> writes exactly \<open>PWSTANDBY\<close>
  and one carriage return, each as a single write. For every source name the prefix
  \<open>SI\<close> is put in front and the terminator behind, without any check of the name.
\<close>

theorem set_source_power_off_bytes:
  assumes "port s = Some p" and "is_open p"
  shows "set_source ''TUNER'' s =
           (Return (),
            (logger INFO ''setting source to TUNER'' s)
              \<lparr>port := Some (p\<lparr>tx := tx p @ [''SITUNER'' @ [CR]]\<rparr>)\<rparr>) \<and>
         power_off s =
           (Return (),
            (logger INFO ''powering off'' s)
              \<lparr>port := Some (p\<lparr>tx := tx p @ [''PWSTANDBY'' @ [CR]]\<rparr>)\<rparr>) \<and>
         port (snd (set_source source_name s)) =
           Some (p\<lparr>tx := tx p @ [''SI'' @ source_name @ [CR]]\<rparr>)"
  using assms by (simp add: set_source_def power_off_def command_open)

theorem set_source_power_off_bytes_witness:
  "port (opened []) =
     Some \<lparr>baudrate = 9600, portstr = Some ''COM3'', is_open = True, tx = [], rx = []\<rparr> \<and>
   is_open \<lparr>baudrate = 9600, portstr = Some ''COM3'', is_open = True, tx = [], rx = []\<rparr> \<and>
   written (snd (set_source ''TUNER'' (opened []))) = [''SITUNER'' @ [CR]] \<and>
   written (snd (power_off (opened []))) = [''PWSTANDBY'' @ [CR]]"
proof -
  let ?p = "\<lparr>baudrate = 9600, portstr = Some ''COM3'', is_open = True, tx = [], rx = []\<rparr>"
  have h1: "port (opened []) = Some ?p" by (rule port_opened)
  have h2: "is_open ?p" by simp
  show ?thesis
    using set_source_power_off_bytes [OF h1 h2, of "''TUNER''"] h1 by (simp add: written_def)
qed

section \<open>The reply of a query\<close>

text \<open>
  Claim C6 says that with the reply bytes \<open>PWON\<close> and a carriage return the raw reply of
  \<open>query_power\<close> is \<open>PWON\<close>, the terminator stripped. The code returns what
  \<open>read_until\<close> hands it, and \<open>read_until\<close> keeps the terminator in the line: the
  reply and the logged text both end with the carriage return.
\<close>

theorem query_power_reply_counterexample:
  "fst (query ''PW'' (logger INFO ''querying power status'' (opened (''PWON'' @ [CR])))) =
     Return (Some (''PWON'' @ [CR])) \<and>
   fst (query ''PW'' (logger INFO ''querying power status'' (opened (''PWON'' @ [CR])))) \<noteq>
     Return (Some ''PWON'') \<and>
   last (logged (snd (query_power (opened (''PWON'' @ [CR]))))) =
     (INFO, ''power: PWON'' @ [CR]) \<and>
   last (logged (snd (query_power (opened (''PWON'' @ [CR]))))) \<noteq> (INFO, ''power: PWON'')"
proof -
  let ?s = "logger INFO ''querying power status'' (opened (''PWON'' @ [CR]))"
  let ?p = "\<lparr>baudrate = 9600, portstr = Some ''COM3'', is_open = True, tx = [],
             rx = ''PWON'' @ [CR]\<rparr>"
  have h1: "port ?s = Some ?p" by (simp add: port_opened)
  have h2: "is_open ?p" by simp
  have q: "query ''PW'' ?s =
      (Return (Some (''PWON'' @ [CR])), ?s\<lparr>port := Some (?p\<lparr>tx := [''PW?'' @ [CR]], rx := []\<rparr>)\<rparr>)"
    using query_open [OF h1 h2, of "''PW''"] by (simp add: Let_def)
  then show ?thesis by (simp add: query_power_def log_reply_def)
qed

text \<open>
  Claim C6 as amended. On an open session whose incoming bytes start with \<open>PWON\<close> and a
  carriage return, the query of \<open>query_power\<close> writes \<open>PW?\<close> and a carriage return and
  obtains the reply \<open>PWON\<close> followed by the carriage return (the terminator is kept);
  \<open>query_power\<close> returns normally and logs that reply verbatim after \<open>power: \<close>.
\<close>

theorem query_power_reply:
  assumes "port s = Some p" and "is_open p" and "rx p = ''PWON'' @ [CR] @ rest"
  shows "query ''PW'' (logger INFO ''querying power status'' s) =
           (Return (Some (''PWON'' @ [CR])),
            (logger INFO ''querying power status'' s)
              \<lparr>port := Some (p\<lparr>tx := tx p @ [''PW?'' @ [CR]], rx := rest\<rparr>)\<rparr>) \<and>
         query_power s =
           (Return (),
            logger INFO (''power: '' @ ''PWON'' @ [CR])
              ((logger INFO ''querying power status'' s)
                 \<lparr>port := Some (p\<lparr>tx := tx p @ [''PW?'' @ [CR]], rx := rest\<rparr>)\<rparr>))"
proof -
  let ?s = "logger INFO ''querying power status'' s"
  have h1: "port ?s = Some p" using assms(1) by simp
  have q: "query ''PW'' ?s =
      (Return (Some (''PWON'' @ [CR])),
       ?s\<lparr>port := Some (p\<lparr>tx := tx p @ [''PW?'' @ [CR]], rx := rest\<rparr>)\<rparr>)"
    using query_open [OF h1 assms(2), of "''PW''"] assms(3) by (simp add: Let_def)
  then show ?thesis by (simp add: query_power_def log_reply_def)
qed

theorem query_power_reply_witness:
  "port (opened (''PWON'' @ [CR])) =
     Some \<lparr>baudrate = 9600, portstr = Some ''COM3'', is_open = True, tx = [],
           rx = ''PWON'' @ [CR]\<rparr> \<and>
   is_open \<lparr>baudrate = 9600, portstr = Some ''COM3'', is_open = True, tx = [],
            rx = ''PWON'' @ [CR]\<rparr> \<and>
   rx \<lparr>baudrate = 9600, portstr = Some ''COM3'', is_open = True, tx = [],
       rx = ''PWON'' @ [CR]\<rparr> = ''PWON'' @ [CR] @ [] \<and>
   fst (query_power (opened (''PWON'' @ [CR]))) = Return () \<and>
   logged (snd (query_power (opened (''PWON'' @ [CR])))) =
     logged (opened (''PWON'' @ [CR])) @
       [(INFO, ''querying power status''), (INFO, ''power: PWON'' @ [CR])] \<and>
   written (snd (query_power (opened (''PWON'' @ [CR])))) = [''PW?'' @ [CR]]"
proof -
  let ?p = "\<lparr>baudrate = 9600, portstr = Some ''COM3'', is_open = True, tx = [],
             rx = ''PWON'' @ [CR]\<rparr>"
  have h1: "port (opened (''PWON'' @ [CR])) = Some ?p" by (rule port_opened)
  have h2: "is_open ?p" by simp
  have h3: "rx ?p = ''PWON'' @ [CR] @ []" by simp
  show ?thesis
    using query_power_reply [OF h1 h2 h3] h1 by (simp add: written_def)
qed

section \<open>Volume without a lower bound\<close>

text \<open>
  Claim C9. On an open session \<open>set_volume\<close> accepts every integer percent: it returns
  normally, and when the computed device value is at most 65 (negative percents and
  device values below 25 included) it writes \<open>MV\<close>, the value and a carriage return.
  The port is left as it was, nothing being sent, if and only if the value exceeds 65.
\<close>

theorem set_volume_no_lower_bound:
  assumes "port s = Some p" and "is_open p"
  shows "fst (set_volume percent s) = Return () \<and>
         port (snd (set_volume percent s)) =
           Some (if percent * (65 - 25) div 100 + 25 > 65 then p
                 else p\<lparr>tx := tx p @ [''MV'' @ str (percent * (65 - 25) div 100 + 25) @ [CR]]\<rparr>) \<and>
         ((port (snd (set_volume percent s)) = port s) =
            (percent * (65 - 25) div 100 + 25 > 65))"
proof -
  define device where "device = percent * (65 - 25) div 100 + 25"
  have changed: "p\<lparr>tx := tx p @ [w]\<rparr> \<noteq> p" for w
  proof
    assume "p\<lparr>tx := tx p @ [w]\<rparr> = p"
    then have "tx (p\<lparr>tx := tx p @ [w]\<rparr>) = tx p" by simp
    then show False by simp
  qed
  have sv: "set_volume percent s =
      (if device > 65
       then (Return (),
             logger ERROR (''calculated volume setting above max volume level: '' @ str device) s)
       else command (''MV'' @ str device)
              (logger INFO
                 (''setting volume to '' @ str percent @ ''% (MV'' @ str device @ '')'') s))"
    unfolding set_volume_def Let_def device_def by simp
  show ?thesis
  proof (cases "device > 65")
    case True
    then show ?thesis using sv assms unfolding device_def by simp
  next
    case False
    then have "set_volume percent s =
       (Return (),
        (logger INFO (''setting volume to '' @ str percent @ ''% (MV'' @ str device @ '')'') s)
          \<lparr>port := Some (p\<lparr>tx := tx p @ [(''MV'' @ str device) @ [CR]]\<rparr>)\<rparr>)"
      using sv assms by (simp add: command_open)
    then show ?thesis using False assms changed unfolding device_def by simp
  qed
qed

theorem set_volume_no_lower_bound_witness:
  "port (opened []) =
     Some \<lparr>baudrate = 9600, portstr = Some ''COM3'', is_open = True, tx = [], rx = []\<rparr> \<and>
   is_open \<lparr>baudrate = 9600, portstr = Some ''COM3'', is_open = True, tx = [], rx = []\<rparr> \<and>
   (- 100) * (65 - 25) div 100 + 25 = (- 15 :: int) \<and>
   written (snd (set_volume (- 100) (opened []))) = [''MV-15'' @ [CR]] \<and>
   written (snd (set_volume 102 (opened []))) = [''MV65'' @ [CR]] \<and>
   written (snd (set_volume 103 (opened []))) = []"
proof -
  let ?p = "\<lparr>baudrate = 9600, portstr = Some ''COM3'', is_open = True, tx = [], rx = []\<rparr>"
  have h1: "port (opened []) = Some ?p" by (rule port_opened)
  have h2: "is_open ?p" by simp
  show ?thesis
    using set_volume_no_lower_bound [OF h1 h2, of "- 100"]
      set_volume_no_lower_bound [OF h1 h2, of 102]
      set_volume_no_lower_bound [OF h1 h2, of 103] h1
    by (simp add: written_def str_def decimal.simps digit_def)
qed

section \<open>Sessions that are not open\<close>

text \<open>
  When the port object exists and is closed (after \<open>close\<close>, or after an \<open>open\<close> that
  was refused), \<open>command\<close> and \<open>query\<close> log the error and return; the port is left as
  it was, also after a second call.
\<close>

lemma closed_session_noop:
  assumes "port s = Some p" and "\<not> is_open p"
  shows "command c s = (Return (), logger ERROR ''Tried to send a command but port wasn't open'' s)"
    and "query q s = (Return None, logger ERROR ''Tried to send a command but port wasn't open'' s)"
    and "port (snd (command c (snd (command c s)))) = port s"
    and "port (snd (query q (snd (query q s)))) = port s"
  using assms by (simp_all add: command_closed query_closed)

text \<open>
  Claim C4 says that \<open>command\<close> and \<open>query\<close> on a closed session log an error and never
  raise. A remote that was constructed and never opened is closed, yet it has no \<open>port\<close>
  attribute: the constructor does not assign it, and the guard reads it. Both operations
  raise AttributeError there, and nothing is logged.
\<close>

theorem unassigned_port_raises:
  "command ''PWON'' (DenonRemote ''COM3'' None None) =
     (Raise AttributeError, DenonRemote ''COM3'' None None) \<and>
   query ''PW'' (DenonRemote ''COM3'' None None) =
     (Raise AttributeError, DenonRemote ''COM3'' None None)"
  by (simp add: command_def query_def DenonRemote_def init_logging_def logger_def Let_def)

section \<open>Connection parameters\<close>

lemma command_port:
  "port (snd (command c s)) =
     map_option (\<lambda>p. if is_open p then p\<lparr>tx := tx p @ [c @ [CR]]\<rparr> else p) (port s)"
  by (simp add: command_def isOpen_def serial_write_def split: option.split)

lemma command_frame:
  "port_name (snd (command c s)) = port_name s \<and> baud_rate (snd (command c s)) = baud_rate s"
  by (simp add: command_def isOpen_def serial_write_def split: option.split)

lemma read_until_tx: "tx (snd (read_until t n p)) = tx p"
  by (simp add: read_until_def split: option.split prod.split)

lemma query_port:
  "port (snd (query q s)) =
     map_option
       (\<lambda>p. if is_open p then snd (read_until CR 135 (p\<lparr>tx := tx p @ [q @ ''?'' @ [CR]]\<rparr>)) else p)
       (port s)"
  by (simp add: query_def isOpen_def serial_write_def
      split: option.split prod.split outcome.split)

lemma query_frame:
  "port_name (snd (query q s)) = port_name s \<and> baud_rate (snd (query q s)) = baud_rate s"
  by (simp add: query_def isOpen_def serial_write_def
      split: option.split prod.split outcome.split)

lemma log_reply_port: "port (snd (log_reply l r)) = port (snd r)"
  by (simp add: log_reply_def split: prod.split outcome.split)

lemma log_reply_frame:
  "port_name (snd (log_reply l r)) = port_name (snd r) \<and>
   baud_rate (snd (log_reply l r)) = baud_rate (snd r)"
  by (simp add: log_reply_def split: prod.split outcome.split)

lemma set_volume_port:
  "port (snd (set_volume v s)) =
     (if v * (65 - 25) div 100 + 25 > 65 then port s
      else map_option
             (\<lambda>p. if is_open p
                  then p\<lparr>tx := tx p @ [(''MV'' @ str (v * (65 - 25) div 100 + 25)) @ [CR]]\<rparr>
                  else p)
             (port s))"
proof -
  define device where "device = v * (65 - 25) div 100 + 25"
  have "port (snd (set_volume v s)) =
     (if device > 65 then port s
      else map_option
             (\<lambda>p. if is_open p then p\<lparr>tx := tx p @ [(''MV'' @ str device) @ [CR]]\<rparr> else p)
             (port s))"
    unfolding set_volume_def Let_def device_def [symmetric]
    by (cases "port s") (simp_all add: command_port)
  then show ?thesis unfolding device_def .
qed

lemma set_volume_frame:
  "port_name (snd (set_volume v s)) = port_name s \<and>
   baud_rate (snd (set_volume v s)) = baud_rate s"
  unfolding set_volume_def Let_def by (simp add: command_frame)

lemma close_port_port:
  "port (snd (close_port s)) = map_option (\<lambda>p. p\<lparr>is_open := False\<rparr>) (port s)"
  by (simp add: close_port_def Let_def split: option.split)

lemma exec_frame:
  "port_name (exec c s) = port_name s \<and> baud_rate (exec c s) = baud_rate s"
proof (cases c)
  case (Open failure incoming)
  then show ?thesis
    by (simp add: open_port_def Let_def split: prod.split outcome.split)
next
  case Close
  then show ?thesis by (simp add: close_port_def Let_def split: option.split)
next
  case (Query q)
  then show ?thesis by (simp add: query_frame)
next
  case (Command a)
  then show ?thesis by (simp add: command_frame)
next
  case Power_off
  then show ?thesis by (simp add: power_off_def command_frame)
next
  case Power_on
  then show ?thesis by (simp add: power_on_def command_frame)
next
  case Query_power
  then show ?thesis by (simp add: query_power_def log_reply_frame query_frame)
next
  case Query_volume
  then show ?thesis by (simp add: query_volume_def log_reply_frame query_frame)
next
  case (Set_volume v)
  then show ?thesis by (simp add: set_volume_frame)
next
  case Query_source
  then show ?thesis by (simp add: query_source_def log_reply_frame query_frame)
next
  case (Set_source n)
  then show ?thesis by (simp add: set_source_def command_frame)
qed

lemma fold_exec_frame:
  "port_name (fold exec cs s) = port_name s \<and> baud_rate (fold exec cs s) = baud_rate s"
  by (induction cs arbitrary: s) (simp_all add: exec_frame)

lemma exec_port_cong:
  assumes "\<not> opens c" and "port s = port s'"
  shows "port (exec c s) = port (exec c s')"
proof (cases c)
  case (Open failure incoming)
  then show ?thesis using assms(1) by simp
next
  case Close
  then show ?thesis using assms(2) by (simp add: close_port_port)
next
  case (Query q)
  then show ?thesis using assms(2) by (simp add: query_port)
next
  case (Command a)
  then show ?thesis using assms(2) by (simp add: command_port)
next
  case Power_off
  then show ?thesis using assms(2) by (simp add: power_off_def command_port)
next
  case Power_on
  then show ?thesis using assms(2) by (simp add: power_on_def command_port)
next
  case Query_power
  then show ?thesis using assms(2) by (simp add: query_power_def log_reply_port query_port)
next
  case Query_volume
  then show ?thesis using assms(2) by (simp add: query_volume_def log_reply_port query_port)
next
  case (Set_volume v)
  then show ?thesis using assms(2) by (simp add: set_volume_port)
next
  case Query_source
  then show ?thesis using assms(2) by (simp add: query_source_def log_reply_port query_port)
next
  case (Set_source n)
  then show ?thesis using assms(2) by (simp add: set_source_def command_port)
qed

lemma command_update:
  "command a (s\<lparr>port_name := n, baud_rate := b\<rparr>) =
     (fst (command a s), (snd (command a s))\<lparr>port_name := n, baud_rate := b\<rparr>)"
  by (simp add: command_def isOpen_def serial_write_def logger_def split: option.split)

lemma query_update:
  "query q (s\<lparr>port_name := n, baud_rate := b\<rparr>) =
     (fst (query q s), (snd (query q s))\<lparr>port_name := n, baud_rate := b\<rparr>)"
  by (simp add: query_def isOpen_def serial_write_def logger_def
      split: option.split prod.split outcome.split)

lemma logger_update:
  "logger lvl msg (s\<lparr>port_name := n, baud_rate := b\<rparr>) =
     (logger lvl msg s)\<lparr>port_name := n, baud_rate := b\<rparr>"
  by (simp add: logger_def)

lemma log_reply_update:
  "log_reply l (oc, s\<lparr>port_name := n, baud_rate := b\<rparr>) =
     (fst (log_reply l (oc, s)), (snd (log_reply l (oc, s)))\<lparr>port_name := n, baud_rate := b\<rparr>)"
  by (simp add: log_reply_def logger_update split: outcome.split)

lemma exec_update:
  assumes "\<not> opens c" and "c \<noteq> Close"
  shows "exec c (s\<lparr>port_name := n, baud_rate := b\<rparr>) =
           (exec c s)\<lparr>port_name := n, baud_rate := b\<rparr>"
proof (cases c)
  case (Open failure incoming)
  then show ?thesis using assms(1) by simp
next
  case Close
  then show ?thesis using assms(2) by simp
next
  case (Query q)
  then show ?thesis by (simp add: query_update)
next
  case (Command a)
  then show ?thesis by (simp add: command_update)
next
  case Power_off
  then show ?thesis by (simp add: power_off_def logger_update command_update)
next
  case Power_on
  then show ?thesis by (simp add: power_on_def logger_update command_update)
next
  case Query_power
  then show ?thesis
    by (simp add: query_power_def logger_update query_update log_reply_update)
next
  case Query_volume
  then show ?thesis
    by (simp add: query_volume_def logger_update query_update log_reply_update)
next
  case (Set_volume v)
  then show ?thesis
    by (simp add: set_volume_def Let_def logger_update command_update)
next
  case Query_source
  then show ?thesis
    by (simp add: query_source_def logger_update query_update log_reply_update)
next
  case (Set_source a)
  then show ?thesis by (simp add: set_source_def logger_update command_update)
qed

lemma open_port_copies:
  assumes "0 \<le> baud_rate s"
  shows "port (snd (open_port failure incoming s)) =
           Some \<lparr>baudrate = baud_rate s, portstr = Some (port_name s),
                 is_open = (failure = None), tx = [], rx = incoming\<rparr>"
  using assms
  by (cases failure)
    (simp_all add: open_port_def Serial_def set_baudrate_def set_portstr_def serial_open_def
      Let_def)

lemma open_port_negative_baud:
  assumes "baud_rate s < 0"
  shows "open_port failure incoming s =
           (Raise ValueError,
            (logger DEBUG (''opening '' @ port_name s) s)\<lparr>port := Some (Serial incoming)\<rparr>)"
  using assms by (simp add: open_port_def set_baudrate_def Let_def)

lemma close_port_update:
  "snd (close_port (s\<lparr>port_name := n, baud_rate := b\<rparr>)) =
     (snd (close_port s))
       \<lparr>port_name := n, baud_rate := b, logged := logged s @ [(DEBUG, ''closing '' @ n)]\<rparr>"
  by (simp add: close_port_def logger_def Let_def split: option.split)

text \<open>
  Claim C8 says that the connection parameters are consumed only when opening the
  session. \<open>close\<close> reads the port name as well, for its debug message: closing the same
  session under another port name leaves another log.
\<close>

theorem close_reads_port_name_counterexample:
  "logged (exec Close (opened [])) = logged (opened []) @ [(DEBUG, ''closing COM3'')] \<and>
   logged (exec Close (opened []\<lparr>port_name := ''COM7''\<rparr>)) =
     logged (opened []) @ [(DEBUG, ''closing COM7'')] \<and>
   exec Close (opened []\<lparr>port_name := ''COM7''\<rparr>) \<noteq>
     (exec Close (opened []))\<lparr>port_name := ''COM7''\<rparr>"
proof -
  have n: "port_name (opened []) = ''COM3''"
    using exec_frame [of "Open None []" "DenonRemote ''COM3'' None None"]
    by (simp add: opened_def DenonRemote_def Let_def)
  have a: "logged (exec Close (opened [])) = logged (opened []) @ [(DEBUG, ''closing COM3'')]"
    using n by (simp add: close_port_def Let_def split: option.split)
  have b: "logged (exec Close (opened []\<lparr>port_name := ''COM7''\<rparr>)) =
      logged (opened []) @ [(DEBUG, ''closing COM7'')]"
    by (simp add: close_port_def Let_def split: option.split)
  have "logged (exec Close (opened []\<lparr>port_name := ''COM7''\<rparr>)) \<noteq>
      logged ((exec Close (opened []))\<lparr>port_name := ''COM7''\<rparr>)"
    using a b by simp
  then have "exec Close (opened []\<lparr>port_name := ''COM7''\<rparr>) \<noteq>
      (exec Close (opened []))\<lparr>port_name := ''COM7''\<rparr>"
    by metis
  with a b show ?thesis by simp
qed

text \<open>
  Claim C8 as amended. The constructor stores the port name and the baud rate it is
  given, the baud rate being 9600 when the argument is left out. No method call, and so
  no sequence of method calls, changes either of them. They reach the transport only
  when opening the session: \<open>open\<close> copies both into the port object it creates when the
  baud rate is not negative, and with a negative baud rate the library's setter raises
  ValueError and the new port object keeps its defaults, unnamed and closed. The port that
  any other call leaves does not depend on them. Apart from \<open>open\<close>, the only call whose
  effect depends on one of them is \<open>close\<close>, which puts the port name in its debug
  message and depends on them in no other way.
\<close>

theorem connection_parameters_frame:
  "port_name (DenonRemote name lvl baud) = name \<and>
   baud_rate (DenonRemote name lvl None) = 9600 \<and>
   baud_rate (DenonRemote name lvl (Some b)) = b \<and>
   port_name (fold exec cs s) = port_name s \<and>
   baud_rate (fold exec cs s) = baud_rate s \<and>
   (0 \<le> baud_rate s \<longrightarrow>
      port (exec (Open failure incoming) s) =
        Some \<lparr>baudrate = baud_rate s, portstr = Some (port_name s),
              is_open = (failure = None), tx = [], rx = incoming\<rparr>) \<and>
   (baud_rate s < 0 \<longrightarrow>
      open_port failure incoming s =
        (Raise ValueError,
         (logger DEBUG (''opening '' @ port_name s) s)\<lparr>port := Some (Serial incoming)\<rparr>)) \<and>
   (\<not> opens c \<longrightarrow>
      port (exec c (s\<lparr>port_name := name', baud_rate := b'\<rparr>)) = port (exec c s)) \<and>
   (\<not> opens c \<and> c \<noteq> Close \<longrightarrow>
      exec c (s\<lparr>port_name := name', baud_rate := b'\<rparr>) =
        (exec c s)\<lparr>port_name := name', baud_rate := b'\<rparr>) \<and>
   exec Close (s\<lparr>port_name := name', baud_rate := b'\<rparr>) =
     (exec Close s)
       \<lparr>port_name := name', baud_rate := b',
        logged := logged s @ [(DEBUG, ''closing '' @ name')]\<rparr>"
proof -
  have ctor: "port_name (DenonRemote name lvl baud) = name \<and>
      baud_rate (DenonRemote name lvl None) = 9600 \<and>
      baud_rate (DenonRemote name lvl (Some b)) = b"
    by (simp add: DenonRemote_def Let_def)
  have opn: "port (exec (Open failure incoming) s) =
        Some \<lparr>baudrate = baud_rate s, portstr = Some (port_name s),
              is_open = (failure = None), tx = [], rx = incoming\<rparr>"
    if "0 \<le> baud_rate s"
    using that by (simp add: open_port_copies)
  have neg: "open_port failure incoming s =
        (Raise ValueError,
         (logger DEBUG (''opening '' @ port_name s) s)\<lparr>port := Some (Serial incoming)\<rparr>)"
    if "baud_rate s < 0"
    using that by (rule open_port_negative_baud)
  have indep: "port (exec c (s\<lparr>port_name := name', baud_rate := b'\<rparr>)) = port (exec c s)"
    if "\<not> opens c"
    using that by (rule exec_port_cong) simp
  have comm: "exec c (s\<lparr>port_name := name', baud_rate := b'\<rparr>) =
        (exec c s)\<lparr>port_name := name', baud_rate := b'\<rparr>"
    if "\<not> opens c \<and> c \<noteq> Close"
    using that by (simp add: exec_update)
  have cls: "exec Close (s\<lparr>port_name := name', baud_rate := b'\<rparr>) =
     (exec Close s)
       \<lparr>port_name := name', baud_rate := b',
        logged := logged s @ [(DEBUG, ''closing '' @ name')]\<rparr>"
    by (simp add: close_port_update)
  show ?thesis using ctor opn neg indep comm cls fold_exec_frame [of cs s] by blast
qed

theorem connection_parameters_frame_witness:
  "\<not> opens Query_power \<and> Query_power \<noteq> Close \<and>
   0 \<le> baud_rate (DenonRemote ''COM3'' None None) \<and>
   baud_rate (DenonRemote ''COM3'' None (Some (- 1))) < 0 \<and>
   baud_rate (fold exec [Open None (''PWON'' @ [CR]), Query_power, Set_volume 50, Close]
                (DenonRemote ''COM3'' None None)) = 9600 \<and>
   port_name (fold exec [Open None (''PWON'' @ [CR]), Query_power, Set_volume 50, Close]
                (DenonRemote ''COM3'' None None)) = ''COM3'' \<and>
   port (exec (Open None (''PWON'' @ [CR])) (DenonRemote ''COM3'' None None)) =
     Some \<lparr>baudrate = 9600, portstr = Some ''COM3'', is_open = True, tx = [],
           rx = ''PWON'' @ [CR]\<rparr> \<and>
   fst (open_port None [] (DenonRemote ''COM3'' None (Some (- 1)))) = Raise ValueError \<and>
   port (snd (open_port None [] (DenonRemote ''COM3'' None (Some (- 1))))) =
     Some \<lparr>baudrate = 9600, portstr = None, is_open = False, tx = [], rx = []\<rparr> \<and>
   exec Query_power (opened (''PWON'' @ [CR])\<lparr>port_name := ''COM7'', baud_rate := 19200\<rparr>) =
     (exec Query_power (opened (''PWON'' @ [CR])))\<lparr>port_name := ''COM7'', baud_rate := 19200\<rparr> \<and>
   port (exec Close (opened (''PWON'' @ [CR])\<lparr>port_name := ''COM7'', baud_rate := 19200\<rparr>)) =
     port (exec Close (opened (''PWON'' @ [CR])))"
proof -
  have h: "\<not> opens Query_power" "Query_power \<noteq> Close" "\<not> opens Close" by simp_all
  have pos: "0 \<le> baud_rate (DenonRemote ''COM3'' None None)"
    and nm: "port_name (DenonRemote ''COM3'' None None) = ''COM3''"
    and br: "baud_rate (DenonRemote ''COM3'' None None) = 9600"
    and neg: "baud_rate (DenonRemote ''COM3'' None (Some (- 1))) < 0"
    by (simp_all add: DenonRemote_def Let_def)
  note t = connection_parameters_frame
    [where name = "''COM3''" and lvl = None and baud = None
       and cs = "[Open None (''PWON'' @ [CR]), Query_power, Set_volume 50, Close]"
       and s = "DenonRemote ''COM3'' None None" and failure = None
       and incoming = "''PWON'' @ [CR]"]
  note w = connection_parameters_frame
    [where s = "DenonRemote ''COM3'' None (Some (- 1))" and failure = None and incoming = "[]"]
  note u = connection_parameters_frame
    [where s = "opened (''PWON'' @ [CR])" and c = Query_power
       and name' = "''COM7''" and b' = 19200]
  note v = connection_parameters_frame
    [where s = "opened (''PWON'' @ [CR])" and c = Close
       and name' = "''COM7''" and b' = 19200]
  have a: "port (exec (Open None (''PWON'' @ [CR])) (DenonRemote ''COM3'' None None)) =
     Some \<lparr>baudrate = 9600, portstr = Some ''COM3'', is_open = True, tx = [],
           rx = ''PWON'' @ [CR]\<rparr>"
    using t pos nm br by simp
  have b: "open_port None [] (DenonRemote ''COM3'' None (Some (- 1))) =
        (Raise ValueError,
         (logger DEBUG (''opening '' @ port_name (DenonRemote ''COM3'' None (Some (- 1))))
            (DenonRemote ''COM3'' None (Some (- 1))))\<lparr>port := Some (Serial [])\<rparr>)"
    using w neg by blast
  have c: "fst (open_port None [] (DenonRemote ''COM3'' None (Some (- 1)))) = Raise ValueError"
    and d: "port (snd (open_port None [] (DenonRemote ''COM3'' None (Some (- 1))))) =
     Some \<lparr>baudrate = 9600, portstr = None, is_open = False, tx = [], rx = []\<rparr>"
    by (simp_all add: b Serial_def)
  have e: "baud_rate (fold exec [Open None (''PWON'' @ [CR]), Query_power, Set_volume 50, Close]
                (DenonRemote ''COM3'' None None)) = 9600"
    and f: "port_name (fold exec [Open None (''PWON'' @ [CR]), Query_power, Set_volume 50, Close]
                (DenonRemote ''COM3'' None None)) = ''COM3''"
    using t nm br by simp_all
  have g: "exec Query_power (opened (''PWON'' @ [CR])\<lparr>port_name := ''COM7'', baud_rate := 19200\<rparr>) =
     (exec Query_power (opened (''PWON'' @ [CR])))\<lparr>port_name := ''COM7'', baud_rate := 19200\<rparr>"
    using u h by blast
  have i: "port (exec Close (opened (''PWON'' @ [CR])\<lparr>port_name := ''COM7'', baud_rate := 19200\<rparr>)) =
     port (exec Close (opened (''PWON'' @ [CR])))"
    using v h by blast
  show ?thesis using h pos neg a c d e f g i by blast
qed

section \<open>Framing of what is written\<close>

lemma written_logger [simp]: "written (logger lvl msg s) = written s"
  by (simp add: written_def)

lemma written_command:
  "written (snd (command a s)) =
     (if \<exists>p. port s = Some p \<and> is_open p then written s @ [a @ [CR]] else written s)"
  by (cases "port s") (auto simp: written_def command_port)

lemma written_query:
  "written (snd (query q s)) =
     (if \<exists>p. port s = Some p \<and> is_open p then written s @ [(q @ ''?'') @ [CR]] else written s)"
  by (cases "port s") (auto simp: written_def query_port read_until_tx)

lemma written_log_reply: "written (snd (log_reply l r)) = written (snd r)"
  by (simp add: written_def log_reply_port)

lemma written_close: "written (snd (close_port s)) = written s"
  by (cases "port s") (simp_all add: written_def close_port_port)

lemma written_set_volume:
  "written (snd (set_volume v s)) =
     (if v * (65 - 25) div 100 + 25 \<le> 65 \<and> (\<exists>p. port s = Some p \<and> is_open p)
      then written s @ [(''MV'' @ str (v * (65 - 25) div 100 + 25)) @ [CR]]
      else written s)"
proof -
  define device where "device = v * (65 - 25) div 100 + 25"
  have "written (snd (set_volume v s)) =
     (if device \<le> 65 \<and> (\<exists>p. port s = Some p \<and> is_open p)
      then written s @ [(''MV'' @ str device) @ [CR]]
      else written s)"
    unfolding set_volume_def Let_def device_def [symmetric]
    by (simp add: written_command)
  then show ?thesis unfolding device_def .
qed

lemma last_str_not_CR: "last (''MV'' @ str i) \<noteq> CR"
proof -
  have "last (''MV'' @ str i) = last (str i)" using str_nonempty [of i] by simp
  moreover have "last (str i) \<in> set (str i)" using str_nonempty [of i] by simp
  ultimately show ?thesis using str_no_CR [of i] by metis
qed

text \<open>
  Claim C10 as amended. Every method call other than \<open>open\<close> performs at most one
  write, and what it writes is its message followed by one appended carriage return, so
  every written byte sequence ends in a carriage return. The message itself ends in a
  carriage return only when the call is \<open>command\<close> or \<open>set_source\<close> and the string
  passed to it does: for \<open>query\<close>, the power and volume operations and the three status
  queries the written sequence ends in exactly one carriage return. (\<open>open\<close> writes
  nothing; it starts a new port object with an empty history.)
\<close>

theorem write_appends_one_terminator:
  assumes "\<not> opens c"
  shows "written (exec c s) = written s \<or>
         (\<exists>w. written (exec c s) = written s @ [w @ [CR]] \<and>
              (w \<noteq> [] \<and> last w = CR \<longrightarrow>
                 (\<exists>a. (c = Command a \<or> c = Set_source a) \<and> a \<noteq> [] \<and> last a = CR)))"
proof (cases c)
  case (Open failure incoming)
  then show ?thesis using assms by simp
next
  case Close
  then show ?thesis by (simp add: written_close)
next
  case (Query q)
  have "written (exec c s) = written s \<or> written (exec c s) = written s @ [(q @ ''?'') @ [CR]]"
    using Query by (simp add: written_query)
  moreover have "last (q @ ''?'') \<noteq> CR" by simp
  ultimately show ?thesis by blast
next
  case (Command a)
  have "written (exec c s) = written s \<or> written (exec c s) = written s @ [a @ [CR]]"
    using Command by (simp add: written_command)
  then show ?thesis using Command by blast
next
  case Power_off
  have "written (exec c s) = written s \<or> written (exec c s) = written s @ [''PWSTANDBY'' @ [CR]]"
    using Power_off by (simp add: power_off_def written_command)
  moreover have "last ''PWSTANDBY'' \<noteq> CR" by simp
  ultimately show ?thesis by blast
next
  case Power_on
  have "written (exec c s) = written s \<or> written (exec c s) = written s @ [''PWON'' @ [CR]]"
    using Power_on by (simp add: power_on_def written_command)
  moreover have "last ''PWON'' \<noteq> CR" by simp
  ultimately show ?thesis by blast
next
  case Query_power
  have "written (exec c s) = written s \<or> written (exec c s) = written s @ [''PW?'' @ [CR]]"
    using Query_power by (simp add: query_power_def written_log_reply written_query)
  moreover have "last ''PW?'' \<noteq> CR" by simp
  ultimately show ?thesis by blast
next
  case Query_volume
  have "written (exec c s) = written s \<or> written (exec c s) = written s @ [''MV?'' @ [CR]]"
    using Query_volume by (simp add: query_volume_def written_log_reply written_query)
  moreover have "last ''MV?'' \<noteq> CR" by simp
  ultimately show ?thesis by blast
next
  case (Set_volume v)
  have "written (exec c s) = written s \<or>
        written (exec c s) = written s @ [(''MV'' @ str (v * (65 - 25) div 100 + 25)) @ [CR]]"
    using Set_volume written_set_volume [of v s] by (simp split: if_splits)
  moreover have "last (''MV'' @ str (v * (65 - 25) div 100 + 25)) \<noteq> CR"
    by (rule last_str_not_CR)
  ultimately show ?thesis by blast
next
  case Query_source
  have "written (exec c s) = written s \<or> written (exec c s) = written s @ [''SI?'' @ [CR]]"
    using Query_source by (simp add: query_source_def written_log_reply written_query)
  moreover have "last ''SI?'' \<noteq> CR" by simp
  ultimately show ?thesis by blast
next
  case (Set_source n)
  have w: "written (exec c s) = written s \<or> written (exec c s) = written s @ [(''SI'' @ n) @ [CR]]"
    using Set_source by (simp add: set_source_def written_command)
  have "n \<noteq> [] \<and> last n = CR" if "last (''SI'' @ n) = CR"
    using that by (cases "n = []") simp_all
  then show ?thesis using w Set_source by blast
qed

theorem write_appends_one_terminator_witness:
  "\<not> opens Power_off \<and> \<not> opens (Set_volume 50) \<and> \<not> opens (Query ''SI'') \<and>
   written (exec Power_off (opened (''TV'' @ [CR]))) = [''PWSTANDBY'' @ [CR]] \<and>
   written (exec (Set_volume 50) (opened (''TV'' @ [CR]))) = [''MV45'' @ [CR]] \<and>
   written (exec (Query ''SI'') (opened (''TV'' @ [CR]))) = [''SI?'' @ [CR]] \<and>
   written (exec (Query ''SI'') (DenonRemote ''COM3'' None None)) = []"
proof -
  have h: "\<not> opens Power_off" "\<not> opens (Set_volume 50)" "\<not> opens (Query ''SI'')"
    by simp_all
  have w0: "written (opened (''TV'' @ [CR])) = []" by (simp add: written_def port_opened)
  have n0: "written (DenonRemote ''COM3'' None None) = []"
    by (simp add: written_def DenonRemote_def init_logging_def logger_def Let_def)
  have a: "written (exec Power_off (opened (''TV'' @ [CR]))) = [''PWSTANDBY'' @ [CR]]"
    using write_appends_one_terminator [OF h(1), of "opened (''TV'' @ [CR])"] w0
    by (simp add: power_off_def written_command port_opened)
  have b: "written (exec (Set_volume 50) (opened (''TV'' @ [CR]))) = [''MV45'' @ [CR]]"
    using write_appends_one_terminator [OF h(2), of "opened (''TV'' @ [CR])"] w0
    by (simp add: written_set_volume port_opened str_def decimal.simps digit_def)
  have c: "written (exec (Query ''SI'') (opened (''TV'' @ [CR]))) = [''SI?'' @ [CR]]"
    using write_appends_one_terminator [OF h(3), of "opened (''TV'' @ [CR])"] w0
    by (simp add: written_query port_opened)
  have d: "written (exec (Query ''SI'') (DenonRemote ''COM3'' None None)) = []"
    using write_appends_one_terminator [OF h(3), of "DenonRemote ''COM3'' None None"] n0
    by (simp add: written_query DenonRemote_def init_logging_def logger_def Let_def)
  show ?thesis using h a b c d by simp
qed

text \<open>
  Claim C10 says that every written byte sequence ends in exactly one carriage return.
  Neither \<open>command\<close> nor \<open>set_source\<close> inspects its argument: given a string that ends
  in a carriage return, the sequence written ends in two.
\<close>

theorem two_terminators_counterexample:
  "written (exec (Command (''PWON'' @ [CR])) (opened [])) = [''PWON'' @ [CR, CR]] \<and>
   written (exec (Set_source (''TV'' @ [CR])) (opened [])) = [''SITV'' @ [CR, CR]] \<and>
   map (\<lambda>w. length (takeWhile (\<lambda>c. c = CR) (rev w)))
     (written (exec (Command (''PWON'' @ [CR])) (opened []))) = [2]"
proof -
  have w0: "written (opened []) = []" by (simp add: written_def port_opened)
  show ?thesis by (simp add: written_command set_source_def port_opened w0)
qed

end
